theory Spec2Isabelle
  imports Main "HOL-Library.Word"
begin

section \<open>The tray shim of src/native/tray.c (the Cocoa branch)\<close>

text \<open>
  The functions modelled are those compiled under \<open>__APPLE__\<close>; the stubs of the
  other branch do nothing and return their argument or unit.

  The shim keeps three kinds of objects behind pointers: the \<open>TrayHandle\<close> structs it
  allocates with \<open>malloc\<close>, the \<open>NSStatusItem\<close> objects the status bar hands out, and
  the \<open>TrayTarget\<close> objects that hold a click callback. Each kind lives in a store of
  its own, a list indexed by address; a pointer is \<open>None\<close> (\<open>NULL\<close>, \<open>nil\<close>) or
  \<open>Some a\<close>. The source never calls \<open>free\<close> and the model never deallocates: an
  address below the length of its store names an object, any other address is dangling,
  and reading through a dangling pointer is the fault \<open>InvalidPointer\<close>.
  Allocation (\<open>malloc\<close>, \<open>alloc\<close>/\<open>init\<close>, \<open>statusItemWithLength:\<close>) is taken to
  succeed and appends to the store.
\<close>

type_synonym "value" = "64 word"
  \<comment> \<open>an OCaml \<open>value\<close>: one machine word; \<open>0\<close> is the empty callback slot\<close>

datatype fault = InvalidPointer

datatype selector = HandleClick

record TrayTarget =
  callback :: "value"

record TrayHandle =
  statusItem :: "nat option"
  target :: "nat option"
  removed :: "32 word"

text \<open>
  A status item together with its button. A new item carries no image and an empty
  title (lines 99 to 101 of the source install a title because an item without one is
  not visible), is visible, and its button has neither target nor action.
\<close>

record NSStatusItem =
  visible :: bool
  button_image :: "nat option"
  button_title :: string
  button_hidden :: bool
  button_target :: "nat option"
  button_action :: "selector option"

definition new_status_item :: NSStatusItem where
  "new_status_item =
     \<lparr>visible = True, button_image = None, button_title = [], button_hidden = False,
      button_target = None, button_action = None\<rparr>"

datatype NSApplicationActivationPolicy = Regular | Accessory | Prohibited

datatype objref = ItemRef nat | TargetRef nat

text \<open>
  The calls into AppKit and the OCaml runtime that have an effect beyond the fields
  above, in the order in which they are made.
\<close>

datatype action =
    Retain objref
  | Release objref
  | RemoveStatusItem nat
  | SizeToFit nat
  | RemoveGlobalRoot nat
  | RegisterGlobalRoot nat
  | CamlCallback "value"

text \<open>The lines written with \<open>NSLog\<close>, with the values they format.\<close>

datatype logline =
    LogCreating
  | LogStatusItemCreated nat
  | LogButton nat
  | LogHandleCreated nat
  | LogSetTitleCalled "nat option"
  | LogSettingTitle string
  | LogButtonBefore nat
  | LogButtonAfter nat string
  | LogSetTitleFailed "nat option" int "nat option"
  | LogClickHandlerSet

record world =
  handles :: "TrayHandle list"
  items :: "NSStatusItem list"
  targets :: "TrayTarget list"
  statusBar :: "nat list"
  globalRoots :: "nat list"
  nsApp :: "NSApplicationActivationPolicy option"
  trace :: "action list"
  console :: "logline list"

definition init_world :: world where
  "init_world =
     \<lparr>handles = [], items = [], targets = [], statusBar = [], globalRoots = [],
      nsApp = None, trace = [], console = []\<rparr>"

definition deref :: "'a list \<Rightarrow> nat \<Rightarrow> 'a option" where
  "deref store a = (if a < length store then Some (store ! a) else None)"

definition NSLog :: "logline \<Rightarrow> world \<Rightarrow> world" where
  "NSLog l w = w\<lparr>console := console w @ [l]\<rparr>"

definition act :: "action \<Rightarrow> world \<Rightarrow> world" where
  "act x w = w\<lparr>trace := trace w @ [x]\<rparr>"

definition upd_item :: "nat \<Rightarrow> (NSStatusItem \<Rightarrow> NSStatusItem) \<Rightarrow> world \<Rightarrow> world" where
  "upd_item s f w = w\<lparr>items := (items w)[s := f (items w ! s)]\<rparr>"

definition upd_handle :: "nat \<Rightarrow> (TrayHandle \<Rightarrow> TrayHandle) \<Rightarrow> world \<Rightarrow> world" where
  "upd_handle a f w = w\<lparr>handles := (handles w)[a := f (handles w ! a)]\<rparr>"

definition upd_target :: "nat \<Rightarrow> (TrayTarget \<Rightarrow> TrayTarget) \<Rightarrow> world \<Rightarrow> world" where
  "upd_target t f w = w\<lparr>targets := (targets w)[t := f (targets w ! t)]\<rparr>"

subsection \<open>Strings across the boundary\<close>

text \<open>
  An OCaml string is a sequence of bytes of any content. \<open>String_val\<close> gives the C code
  a \<open>const char *\<close> to its first byte, and \<open>stringWithCString:encoding:\<close> reads a C
  string, which ends at the first NUL byte. The bytes are taken to be UTF-8 text, as the
  OCaml side passes them, and an \<open>NSString\<close> is represented by its UTF-8 bytes.
\<close>

definition String_val :: "string \<Rightarrow> string" where
  "String_val s = takeWhile (\<lambda>c. c \<noteq> CHR 0x00) s"

definition stringWithCString :: "string \<Rightarrow> string" where
  "stringWithCString cs = cs"

text \<open>
  The file system is a parameter: \<open>fs p\<close> is the image that
  \<open>initWithContentsOfFile:\<close> loads from the path \<open>p\<close>, \<open>None\<close> when it returns
  \<open>nil\<close>.
\<close>

definition mlui_make_image_from_path :: "(string \<Rightarrow> nat option) \<Rightarrow> string \<Rightarrow> nat option" where
  "mlui_make_image_from_path fs image_path = fs (stringWithCString image_path)"

subsection \<open>The click target\<close>

definition TrayTarget_init :: TrayTarget where
  "TrayTarget_init = \<lparr>callback = 0\<rparr>"

text \<open>
  \<open>caml_callback\<close> runs the OCaml closure; what the closure does is the host
  program's, so the call is recorded and the world is otherwise left as it is.
\<close>

definition handleClick :: "world \<Rightarrow> nat \<Rightarrow> fault + world" where
  "handleClick w t =
     (case deref (targets w) t of
        None \<Rightarrow> Inl InvalidPointer
      | Some tg \<Rightarrow>
          if callback tg \<noteq> 0 then Inr (act (CamlCallback (callback tg)) w) else Inr w)"

text \<open>
  A click on a status item: AppKit sends the button's action to the button's target.
  With no action or no target there is no receiver.
\<close>

definition click :: "world \<Rightarrow> nat \<Rightarrow> fault + world" where
  "click w s =
     (case deref (items w) s of
        None \<Rightarrow> Inl InvalidPointer
      | Some it \<Rightarrow>
          (case (button_action it, button_target it) of
             (Some HandleClick, Some t) \<Rightarrow> handleClick w t
           | _ \<Rightarrow> Inr w))"

subsection \<open>mlui_tray_make\<close>

text \<open>
  Lines 64 to 117. \<open>NSApp\<close> gets the accessory policy only when it did not exist. The
  status bar creates the item, which the shim retains and makes visible; then either the
  image is loaded and, when it loaded, set (lines 91 to 97), or, with no path, the title
  becomes one space (lines 98 to 103). The handle struct is allocated last, with
  \<open>target = nil\<close> and \<open>removed = 0\<close>, and its address is what the OCaml side gets.
\<close>

definition mlui_tray_make ::
  "(string \<Rightarrow> nat option) \<Rightarrow> world \<Rightarrow> string option \<Rightarrow> world \<times> nat option" where
  "mlui_tray_make fs w vImagePath =
     (let w1 = NSLog LogCreating w;
          w2 = w1\<lparr>nsApp := (case nsApp w1 of None \<Rightarrow> Some Accessory | Some p \<Rightarrow> Some p)\<rparr>;
          s = length (items w2);
          w3 = w2\<lparr>items := items w2 @ [new_status_item], statusBar := statusBar w2 @ [s]\<rparr>;
          w4 = act (Retain (ItemRef s)) w3;
          w5 = NSLog (LogButton s) (NSLog (LogStatusItemCreated s) w4);
          w6 = upd_item s (\<lambda>it. it\<lparr>visible := True\<rparr>) w5;
          w7 = (case vImagePath of
                  Some p \<Rightarrow>
                    (case mlui_make_image_from_path fs (String_val p) of
                       Some nsImage \<Rightarrow>
                         act (SizeToFit s)
                           (upd_item s (\<lambda>it. it\<lparr>button_image := Some nsImage\<rparr>) w6)
                     | None \<Rightarrow> w6)
                | None \<Rightarrow>
                    act (SizeToFit s) (upd_item s (\<lambda>it. it\<lparr>button_title := '' ''\<rparr>) w6));
          a = length (handles w7);
          w8 = w7\<lparr>handles := handles w7 @
                  [\<lparr>statusItem = Some s, target = None, removed = 0\<rparr>]\<rparr>;
          w9 = NSLog (LogHandleCreated a) w8
      in (w9, Some a))"

subsection \<open>mlui_tray_set_title\<close>

text \<open>
  Lines 120 to 157. The handle pointer is read out of the OCaml block and logged; the
  body runs under \<open>handle && !handle->removed && handle->statusItem\<close>, and the
  other branch only logs. The value returned is the argument \<open>vTrayHandle\<close>.
  The log line of the other branch (lines 149 and 150) formats \<open>handle->statusItem\<close>
  with \<open>%@\<close>, which sends a message to the object when the reference is not
  \<open>nil\<close>: there a reference that addresses no object is a fault, as it is in the body.
\<close>

definition mlui_tray_set_title ::
  "world \<Rightarrow> nat option \<Rightarrow> string \<Rightarrow> fault + (world \<times> nat option)" where
  "mlui_tray_set_title w vTrayHandle vTitle =
     (let w1 = NSLog (LogSetTitleCalled vTrayHandle) w in
      case vTrayHandle of
        None \<Rightarrow> Inr (NSLog (LogSetTitleFailed None (- 1) None) w1, vTrayHandle)
      | Some a \<Rightarrow>
          (case deref (handles w1) a of
             None \<Rightarrow> Inl InvalidPointer
           | Some h \<Rightarrow>
               if removed h = 0 \<and> statusItem h \<noteq> None then
                 (case statusItem h of
                    None \<Rightarrow> Inr (w1, vTrayHandle)
                  | Some s \<Rightarrow>
                      (case deref (items w1) s of
                         None \<Rightarrow> Inl InvalidPointer
                       | Some _ \<Rightarrow>
                           (let nsTitle = stringWithCString (String_val vTitle);
                                w2 = NSLog (LogButtonBefore s) (NSLog (LogSettingTitle nsTitle) w1);
                                w3 = upd_item s (\<lambda>it. it\<lparr>button_image := None\<rparr>) w2;
                                w4 = upd_item s (\<lambda>it. it\<lparr>button_title := nsTitle\<rparr>) w3;
                                w5 = upd_item s (\<lambda>it. it\<lparr>button_hidden := False\<rparr>) w4;
                                w6 = upd_item s (\<lambda>it. it\<lparr>visible := True\<rparr>) w5;
                                w7 = act (SizeToFit s) w6;
                                w8 = NSLog (LogButtonAfter s (button_title (items w7 ! s))) w7
                            in Inr (w8, vTrayHandle))))
               else
                 (case statusItem h of
                    None \<Rightarrow>
                      Inr (NSLog (LogSetTitleFailed (Some a) (sint (removed h)) None) w1,
                           vTrayHandle)
                  | Some s \<Rightarrow>
                      (case deref (items w1) s of
                         None \<Rightarrow> Inl InvalidPointer
                       | Some _ \<Rightarrow>
                           Inr (NSLog (LogSetTitleFailed (Some a) (sint (removed h)) (Some s)) w1,
                                vTrayHandle)))))"

subsection \<open>mlui_tray_remove\<close>

text \<open>
  Lines 160 to 184, under the same test: the item leaves the status bar and is released;
  when the handle has a click target, a non-empty callback slot is taken out of the
  global roots and emptied, and the target is released and forgotten; then
  \<open>statusItem\<close> becomes \<open>nil\<close> and \<open>removed\<close> becomes \<open>1\<close>.
\<close>

definition mlui_tray_remove :: "world \<Rightarrow> nat option \<Rightarrow> fault + world" where
  "mlui_tray_remove w vTrayHandle =
     (case vTrayHandle of
        None \<Rightarrow> Inr w
      | Some a \<Rightarrow>
          (case deref (handles w) a of
             None \<Rightarrow> Inl InvalidPointer
           | Some h \<Rightarrow>
               if removed h = 0 \<and> statusItem h \<noteq> None then
                 (case statusItem h of
                    None \<Rightarrow> Inr w
                  | Some s \<Rightarrow>
                      (case deref (items w) s of
                         None \<Rightarrow> Inl InvalidPointer
                       | Some _ \<Rightarrow>
                           (let w1 = act (RemoveStatusItem s)
                                       (w\<lparr>statusBar := removeAll s (statusBar w)\<rparr>);
                                w2 = act (Release (ItemRef s)) w1;
                                r3 = (case target h of
                                        None \<Rightarrow> Inr w2
                                      | Some t \<Rightarrow>
                                          (case deref (targets w2) t of
                                             None \<Rightarrow> Inl InvalidPointer
                                           | Some tg \<Rightarrow>
                                               (let w2a =
                                                      (if callback tg \<noteq> 0 then
                                                         upd_target t (\<lambda>x. x\<lparr>callback := 0\<rparr>)
                                                           (act (RemoveGlobalRoot t)
                                                              (w2\<lparr>globalRoots :=
                                                                     remove1 t (globalRoots w2)\<rparr>))
                                                       else w2);
                                                    w2b = act (Release (TargetRef t)) w2a
                                                in Inr (upd_handle a (\<lambda>x. x\<lparr>target := None\<rparr>) w2b))))
                            in case r3 of
                                 Inl e \<Rightarrow> Inl e
                               | Inr w3 \<Rightarrow>
                                   Inr (upd_handle a (\<lambda>x. x\<lparr>removed := 1\<rparr>)
                                          (upd_handle a (\<lambda>x. x\<lparr>statusItem := None\<rparr>) w3)))))
               else Inr w))"

subsection \<open>mlui_tray_set_on_click\<close>

text \<open>
  Lines 187 to 215, under the same test: a click target is allocated when the handle
  has none; a non-empty callback slot is first taken out of the global roots; the new
  callback is stored and the slot registered; the button gets the target and the
  action \<open>handleClick:\<close>.
\<close>

definition mlui_tray_set_on_click :: "world \<Rightarrow> nat option \<Rightarrow> value \<Rightarrow> fault + world" where
  "mlui_tray_set_on_click w vTrayHandle vCallback =
     (case vTrayHandle of
        None \<Rightarrow> Inr w
      | Some a \<Rightarrow>
          (case deref (handles w) a of
             None \<Rightarrow> Inl InvalidPointer
           | Some h \<Rightarrow>
               if removed h = 0 \<and> statusItem h \<noteq> None then
                 (case statusItem h of
                    None \<Rightarrow> Inr w
                  | Some s \<Rightarrow>
                      (let (w1, t) =
                             (case target h of
                                None \<Rightarrow>
                                  (let t = length (targets w) in
                                   (upd_handle a (\<lambda>x. x\<lparr>target := Some t\<rparr>)
                                      (w\<lparr>targets := targets w @ [TrayTarget_init]\<rparr>), t))
                              | Some t \<Rightarrow> (w, t))
                       in case deref (targets w1) t of
                            None \<Rightarrow> Inl InvalidPointer
                          | Some tg \<Rightarrow>
                              (let w2 = (if callback tg \<noteq> 0 then
                                           act (RemoveGlobalRoot t)
                                             (w1\<lparr>globalRoots := remove1 t (globalRoots w1)\<rparr>)
                                         else w1);
                                   w3 = upd_target t (\<lambda>x. x\<lparr>callback := vCallback\<rparr>) w2;
                                   w4 = act (RegisterGlobalRoot t)
                                          (w3\<lparr>globalRoots := globalRoots w3 @ [t]\<rparr>)
                               in case deref (items w4) s of
                                    None \<Rightarrow> Inl InvalidPointer
                                  | Some _ \<Rightarrow>
                                      (let w5 = upd_item s (\<lambda>it. it\<lparr>button_target := Some t\<rparr>) w4;
                                           w6 = upd_item s
                                                  (\<lambda>it. it\<lparr>button_action := Some HandleClick\<rparr>) w5
                                       in Inr (NSLog LogClickHandlerSet w6)))))
               else Inr w))"

subsection \<open>Observers and invariants\<close>

text \<open>
  A handle is live when its pointer addresses a handle struct that passes the test every
  operation starts with: \<open>handle && !handle->removed && handle->statusItem\<close>.
\<close>

definition live :: "world \<Rightarrow> nat option \<Rightarrow> bool" where
  "live w vh =
     (case vh of
        None \<Rightarrow> False
      | Some a \<Rightarrow>
          (case deref (handles w) a of
             None \<Rightarrow> False
           | Some h \<Rightarrow> removed h = 0 \<and> statusItem h \<noteq> None))"

text \<open>The status item a handle shows, when the handle has one.\<close>

definition item_of :: "world \<Rightarrow> nat option \<Rightarrow> NSStatusItem option" where
  "item_of w vh =
     (case vh of
        None \<Rightarrow> None
      | Some a \<Rightarrow>
          (case deref (handles w) a of
             None \<Rightarrow> None
           | Some h \<Rightarrow>
               (case statusItem h of None \<Rightarrow> None | Some s \<Rightarrow> deref (items w) s)))"

text \<open>
  The pointers of a handle struct address objects: the status item and the click target
  are \<open>nil\<close> or allocated.
\<close>

definition handle_ok :: "world \<Rightarrow> TrayHandle \<Rightarrow> bool" where
  "handle_ok w h =
     ((case statusItem h of None \<Rightarrow> True | Some s \<Rightarrow> s < length (items w)) \<and>
      (case target h of None \<Rightarrow> True | Some t \<Rightarrow> t < length (targets w)))"

definition status_ref_ok :: "world \<Rightarrow> TrayHandle \<Rightarrow> bool" where
  "status_ref_ok w h = (case statusItem h of None \<Rightarrow> True | Some s \<Rightarrow> s < length (items w))"

definition valid_handle :: "world \<Rightarrow> nat option \<Rightarrow> bool" where
  "valid_handle w vh =
     (case vh of
        None \<Rightarrow> True
      | Some a \<Rightarrow> (case deref (handles w) a of None \<Rightarrow> False | Some h \<Rightarrow> handle_ok w h))"

text \<open>
  The global roots are the callback slots that hold a callback: a slot is registered
  once when it is not empty, and not at all when it is.
\<close>

definition roots_ok :: "world \<Rightarrow> bool" where
  "roots_ok w =
     (list_all (\<lambda>t. count_list (globalRoots w) t = (if callback (targets w ! t) = 0 then 0 else 1))
        [0..<length (targets w)] \<and>
      list_all (\<lambda>t. t < length (targets w)) (globalRoots w))"

definition world_ok :: "world \<Rightarrow> bool" where
  "world_ok w = (list_all (handle_ok w) (handles w) \<and> roots_ok w)"

text \<open>
  What \<open>mlui_tray_remove\<close> leaves behind: a handle struct with the flag set has
  neither a status item nor a click target.
\<close>

definition removed_ok :: "TrayHandle \<Rightarrow> bool" where
  "removed_ok h = (removed h = 0 \<or> (statusItem h = None \<and> target h = None))"

text \<open>The calls a host program makes, and a run of them, stopping at the first fault.\<close>

datatype tray_op =
    Make "string option"
  | SetTitle "nat option" string
  | SetOnClick "nat option" "value"
  | Remove "nat option"
  | Click nat

fun apply_op :: "(string \<Rightarrow> nat option) \<Rightarrow> world \<Rightarrow> tray_op \<Rightarrow> fault + world" where
  "apply_op fs w (Make p) = Inr (fst (mlui_tray_make fs w p))"
| "apply_op fs w (SetTitle vh t) =
     (case mlui_tray_set_title w vh t of Inl e \<Rightarrow> Inl e | Inr (w', _) \<Rightarrow> Inr w')"
| "apply_op fs w (SetOnClick vh cb) = mlui_tray_set_on_click w vh cb"
| "apply_op fs w (Remove vh) = mlui_tray_remove w vh"
| "apply_op fs w (Click s) = click w s"

fun run :: "(string \<Rightarrow> nat option) \<Rightarrow> world \<Rightarrow> tray_op list \<Rightarrow> fault + world" where
  "run fs w [] = Inr w"
| "run fs w (x # xs) = (case apply_op fs w x of Inl e \<Rightarrow> Inl e | Inr w' \<Rightarrow> run fs w' xs)"

text \<open>A callback passed to \<open>mlui_tray_set_on_click\<close> is a closure, never the word \<open>0\<close>.\<close>

fun op_ok :: "tray_op \<Rightarrow> bool" where
  "op_ok (SetOnClick vh cb) = (cb \<noteq> 0)"
| "op_ok _ = True"

subsection \<open>A small session\<close>

text \<open>
  A file system with one image, and the worlds a host program reaches from the empty
  world: after creating a tray item with that image, after registering a callback on
  it, and after removing it.
\<close>

definition ex_fs :: "string \<Rightarrow> nat option" where
  "ex_fs p = (if p = ''icon.png'' then Some 7 else None)"

definition ex_made :: world where
  "ex_made = fst (mlui_tray_make ex_fs init_world (Some ''icon.png''))"

definition ex_clickable :: world where
  "ex_clickable = projr (mlui_tray_set_on_click ex_made (Some 0) 0x1000)"

definition ex_removed :: world where
  "ex_removed = projr (mlui_tray_remove ex_clickable (Some 0))"

text \<open>
  Two corrupted handles: the pointer \<open>Some 5\<close>, which addresses no handle struct of
  \<open>ex_made\<close>, and the struct of \<open>ex_stale\<close>, whose flag is set while its status-item
  reference is neither \<open>nil\<close> nor the address of an object.
\<close>

definition ex_stale :: world where
  "ex_stale = init_world\<lparr>handles := [\<lparr>statusItem = Some 3, target = None, removed = 1\<rparr>]\<rparr>"

lemmas prims = NSLog_def act_def upd_item_def upd_handle_def upd_target_def deref_def

section \<open>What each operation computes\<close>

text \<open>
  Closed forms of the operations: on a null pointer, on a handle that fails the liveness
  test, and on a live handle whose pointers address objects.
\<close>

lemma callback_zero_id: "callback (x::TrayTarget) = 0 \<Longrightarrow> x\<lparr>callback := 0\<rparr> = x"
  by (cases x) simp

lemma set_title_null:
  "mlui_tray_set_title w None t =
     Inr (w\<lparr>console := console w @ [LogSetTitleCalled None, LogSetTitleFailed None (- 1) None]\<rparr>, None)"
  by (simp add: mlui_tray_set_title_def Let_def NSLog_def)

lemma set_title_dead:
  assumes "deref (handles w) a = Some h" and "removed h \<noteq> 0 \<or> statusItem h = None"
    and "status_ref_ok w h"
  shows "mlui_tray_set_title w (Some a) t =
     Inr (w\<lparr>console := console w @
              [LogSetTitleCalled (Some a),
               LogSetTitleFailed (Some a) (sint (removed h)) (statusItem h)]\<rparr>, Some a)"
  using assms
  by (auto simp add: mlui_tray_set_title_def Let_def NSLog_def deref_def status_ref_ok_def
      split: if_splits option.splits)

lemma set_title_dead_stale:
  assumes "deref (handles w) a = Some h" and "removed h \<noteq> 0" and "statusItem h = Some s"
    and "\<not> s < length (items w)"
  shows "mlui_tray_set_title w (Some a) t = Inl InvalidPointer"
  using assms
  by (auto simp add: mlui_tray_set_title_def Let_def NSLog_def deref_def split: if_splits)

lemma handle_ok_status_ref: "handle_ok w h \<Longrightarrow> status_ref_ok w h"
  by (simp add: handle_ok_def status_ref_ok_def)

lemma set_title_live:
  assumes "deref (handles w) a = Some h" and "removed h = 0" and "statusItem h = Some s"
    and "s < length (items w)"
  shows "mlui_tray_set_title w (Some a) t =
     Inr (w\<lparr>items := (items w)[s := (items w ! s)\<lparr>button_image := None,
                  button_title := String_val t, button_hidden := False, visible := True\<rparr>],
            trace := trace w @ [SizeToFit s],
            console := console w @
              [LogSetTitleCalled (Some a), LogSettingTitle (String_val t), LogButtonBefore s,
               LogButtonAfter s (String_val t)]\<rparr>, Some a)"
  using assms by (auto simp add: mlui_tray_set_title_def Let_def prims stringWithCString_def split: if_splits)

lemma set_title_dangling:
  assumes "deref (handles w) a = Some h" and "removed h = 0" and "statusItem h = Some s"
    and "\<not> s < length (items w)"
  shows "mlui_tray_set_title w (Some a) t = Inl InvalidPointer"
  using assms by (auto simp add: mlui_tray_set_title_def Let_def prims stringWithCString_def split: if_splits)

lemma remove_dead:
  assumes "deref (handles w) a = Some h" and "removed h \<noteq> 0 \<or> statusItem h = None"
  shows "mlui_tray_remove w (Some a) = Inr w"
  using assms by (auto simp add: mlui_tray_remove_def)

lemma set_on_click_dead:
  assumes "deref (handles w) a = Some h" and "removed h \<noteq> 0 \<or> statusItem h = None"
  shows "mlui_tray_set_on_click w (Some a) cb = Inr w"
  using assms by (auto simp add: mlui_tray_set_on_click_def)

lemma remove_live_no_target:
  assumes "deref (handles w) a = Some h" and "removed h = 0" and "statusItem h = Some s"
    and "s < length (items w)" and "target h = None"
  shows "mlui_tray_remove w (Some a) =
     Inr (w\<lparr>handles := (handles w)[a := h\<lparr>statusItem := None, removed := 1\<rparr>],
            statusBar := removeAll s (statusBar w),
            trace := trace w @ [RemoveStatusItem s, Release (ItemRef s)]\<rparr>)"
  using assms by (cases w; cases h) (auto simp add: mlui_tray_remove_def Let_def prims split: if_splits)

lemma remove_live_target:
  assumes "deref (handles w) a = Some h" and "removed h = 0" and "statusItem h = Some s"
    and "s < length (items w)" and "target h = Some t" and "t < length (targets w)"
  shows "mlui_tray_remove w (Some a) =
     Inr (w\<lparr>handles := (handles w)[a := h\<lparr>statusItem := None, target := None, removed := 1\<rparr>],
            targets := (targets w)[t := (targets w ! t)\<lparr>callback := 0\<rparr>],
            statusBar := removeAll s (statusBar w),
            globalRoots := (if callback (targets w ! t) \<noteq> 0 then remove1 t (globalRoots w)
                            else globalRoots w),
            trace := trace w @ [RemoveStatusItem s, Release (ItemRef s)] @
                     (if callback (targets w ! t) \<noteq> 0 then [RemoveGlobalRoot t] else []) @
                     [Release (TargetRef t)]\<rparr>)"
  using assms by (cases w; cases h) (auto simp add: mlui_tray_remove_def Let_def prims callback_zero_id split: if_splits)

lemma set_on_click_live_no_target:
  assumes "deref (handles w) a = Some h" and "removed h = 0" and "statusItem h = Some s"
    and "s < length (items w)" and "target h = None"
  shows "mlui_tray_set_on_click w (Some a) cb =
     Inr (w\<lparr>handles := (handles w)[a := h\<lparr>target := Some (length (targets w))\<rparr>],
            items := (items w)[s := (items w ! s)\<lparr>button_target := Some (length (targets w)),
                        button_action := Some HandleClick\<rparr>],
            targets := targets w @ [\<lparr>callback = cb\<rparr>],
            globalRoots := globalRoots w @ [length (targets w)],
            trace := trace w @ [RegisterGlobalRoot (length (targets w))],
            console := console w @ [LogClickHandlerSet]\<rparr>)"
  using assms by (cases w; cases h) (auto simp add: mlui_tray_set_on_click_def Let_def prims TrayTarget_init_def split: if_splits)

lemma set_on_click_live_target:
  assumes "deref (handles w) a = Some h" and "removed h = 0" and "statusItem h = Some s"
    and "s < length (items w)" and "target h = Some t" and "t < length (targets w)"
  shows "mlui_tray_set_on_click w (Some a) cb =
     Inr (w\<lparr>items := (items w)[s := (items w ! s)\<lparr>button_target := Some t,
                        button_action := Some HandleClick\<rparr>],
            targets := (targets w)[t := (targets w ! t)\<lparr>callback := cb\<rparr>],
            globalRoots := (if callback (targets w ! t) \<noteq> 0 then remove1 t (globalRoots w)
                            else globalRoots w) @ [t],
            trace := trace w @
                     (if callback (targets w ! t) \<noteq> 0 then [RemoveGlobalRoot t] else []) @
                     [RegisterGlobalRoot t],
            console := console w @ [LogClickHandlerSet]\<rparr>)"
  using assms by (cases w; cases h) (auto simp add: mlui_tray_set_on_click_def Let_def prims split: if_splits)

subsection \<open>Live and valid handles\<close>

lemma live_D: "live w (Some a) \<Longrightarrow> \<exists>h s. deref (handles w) a = Some h \<and> removed h = 0 \<and> statusItem h = Some s"
  by (auto simp: live_def split: option.splits)

lemma valid_handle_D: "valid_handle w (Some a) \<Longrightarrow> deref (handles w) a = Some h \<Longrightarrow> handle_ok w h"
  by (auto simp: valid_handle_def split: option.splits)

lemma live_valid_cases:
  assumes "live w (Some a)" and "valid_handle w (Some a)"
  obtains h s where "deref (handles w) a = Some h" "removed h = 0" "statusItem h = Some s"
    "s < length (items w)" "a < length (handles w)" "handles w ! a = h"
    "target h = None \<or> (\<exists>t. target h = Some t \<and> t < length (targets w))"
proof -
  from assms(1) obtain h s where h: "deref (handles w) a = Some h" "removed h = 0" "statusItem h = Some s"
    using live_D by blast
  from assms(2) h(1) have ok: "handle_ok w h" by (rule valid_handle_D)
  from h(1) have a: "a < length (handles w)" "handles w ! a = h"
    by (auto simp: deref_def split: if_splits)
  from ok h(3) have "s < length (items w)" by (simp add: handle_ok_def)
  moreover from ok have "target h = None \<or> (\<exists>t. target h = Some t \<and> t < length (targets w))"
    by (cases "target h") (auto simp: handle_ok_def)
  ultimately show ?thesis using that h a by blast
qed

text \<open>What the operations leave alone in the store of handles.\<close>

lemma set_title_handles:
  "mlui_tray_set_title w vh t = Inr (w', r) \<Longrightarrow> handles w' = handles w \<and> r = vh"
  by (auto simp: mlui_tray_set_title_def Let_def prims split: option.splits if_splits)

lemma click_handles: "click w s = Inr w' \<Longrightarrow> handles w' = handles w"
  by (auto simp: click_def handleClick_def prims split: option.splits if_splits selector.splits)

lemma make_handles: "handles (fst (mlui_tray_make fs w p)) = handles w @ [\<lparr>statusItem = Some (length (items w)), target = None, removed = 0\<rparr>]"
  by (auto simp: mlui_tray_make_def Let_def prims split: option.splits)

lemma remove_handles:
  "mlui_tray_remove w vh = Inr w' \<Longrightarrow> length (handles w') = length (handles w) \<and> (\<forall>b. vh \<noteq> Some b \<longrightarrow> handles w' ! b = handles w ! b)"
  by (auto simp: mlui_tray_remove_def Let_def prims split: option.splits if_splits sum.splits)

lemma set_on_click_handles:
  "mlui_tray_set_on_click w vh cb = Inr w' \<Longrightarrow> length (handles w') = length (handles w) \<and> (\<forall>b. vh \<noteq> Some b \<longrightarrow> handles w' ! b = handles w ! b)"
  by (auto simp: mlui_tray_set_on_click_def Let_def prims split: option.splits if_splits sum.splits prod.splits)

subsection \<open>The small session, evaluated\<close>

lemma ex_made_eq:
  "ex_made =
     \<lparr>handles = [\<lparr>statusItem = Some 0, target = None, removed = 0\<rparr>],
      items = [\<lparr>visible = True, button_image = Some 7, button_title = [],
                button_hidden = False, button_target = None, button_action = None\<rparr>],
      targets = [], statusBar = [0], globalRoots = [], nsApp = Some Accessory,
      trace = [Retain (ItemRef 0), SizeToFit 0],
      console = [LogCreating, LogStatusItemCreated 0, LogButton 0, LogHandleCreated 0]\<rparr>"
  by (simp add: ex_made_def mlui_tray_make_def init_world_def Let_def prims
      new_status_item_def String_val_def stringWithCString_def mlui_make_image_from_path_def
      ex_fs_def)

lemma ex_clickable_eq:
  "ex_clickable =
     \<lparr>handles = [\<lparr>statusItem = Some 0, target = Some 0, removed = 0\<rparr>],
      items = [\<lparr>visible = True, button_image = Some 7, button_title = [],
                button_hidden = False, button_target = Some 0,
                button_action = Some HandleClick\<rparr>],
      targets = [\<lparr>callback = 0x1000\<rparr>], statusBar = [0], globalRoots = [0],
      nsApp = Some Accessory,
      trace = [Retain (ItemRef 0), SizeToFit 0, RegisterGlobalRoot 0],
      console = [LogCreating, LogStatusItemCreated 0, LogButton 0, LogHandleCreated 0,
                 LogClickHandlerSet]\<rparr>"
  by (simp add: ex_clickable_def ex_made_eq mlui_tray_set_on_click_def Let_def prims
      TrayTarget_init_def)

lemma ex_removed_eq:
  "ex_removed =
     \<lparr>handles = [\<lparr>statusItem = None, target = None, removed = 1\<rparr>],
      items = [\<lparr>visible = True, button_image = Some 7, button_title = [],
                button_hidden = False, button_target = Some 0,
                button_action = Some HandleClick\<rparr>],
      targets = [\<lparr>callback = 0\<rparr>], statusBar = [], globalRoots = [],
      nsApp = Some Accessory,
      trace = [Retain (ItemRef 0), SizeToFit 0, RegisterGlobalRoot 0, RemoveStatusItem 0,
               Release (ItemRef 0), RemoveGlobalRoot 0, Release (TargetRef 0)],
      console = [LogCreating, LogStatusItemCreated 0, LogButton 0, LogHandleCreated 0,
                 LogClickHandlerSet]\<rparr>"
  by (simp add: ex_removed_def ex_clickable_eq mlui_tray_remove_def Let_def prims)

section \<open>The invariant of reachable worlds\<close>

text \<open>
  \<open>world_ok\<close> holds of the empty world and is kept by every operation, as long as the
  callbacks registered are OCaml closures (not the word \<open>0\<close>). In a world that
  satisfies it every allocated handle is valid and the global roots are the non-empty
  callback slots, which are the hypotheses of the theorems below.
\<close>

lemma count_list_remove1: "count_list (remove1 x xs) x = count_list xs x - 1"
  by (induction xs) auto

lemma roots_ok_count:
  "roots_ok w \<Longrightarrow> t < length (targets w) \<Longrightarrow>
   count_list (globalRoots w) t = (if callback (targets w ! t) = 0 then 0 else 1)"
  by (simp add: roots_ok_def list_all_iff)

lemma roots_ok_fresh: "roots_ok w \<Longrightarrow> count_list (globalRoots w) (length (targets w)) = 0"
  by (auto simp add: roots_ok_def list_all_iff count_list_0_iff)

lemma roots_ok_iff:
  "roots_ok w \<longleftrightarrow>
     (\<forall>t<length (targets w).
        count_list (globalRoots w) t = (if callback (targets w ! t) = 0 then 0 else 1)) \<and>
     (\<forall>t\<in>set (globalRoots w). t < length (targets w))"
  by (auto simp: roots_ok_def list_all_iff)

lemma world_ok_iff:
  "world_ok w \<longleftrightarrow> (\<forall>a<length (handles w). handle_ok w (handles w ! a)) \<and> roots_ok w"
  by (simp add: world_ok_def list_all_length)

lemma handle_ok_mono:
  "handle_ok w h \<Longrightarrow> length (items w) \<le> length (items w') \<Longrightarrow>
   length (targets w) \<le> length (targets w') \<Longrightarrow> handle_ok w' h"
  by (auto simp: handle_ok_def split: option.splits)

lemma handle_ok_cong:
  "length (items w') = length (items w) \<Longrightarrow> length (targets w') = length (targets w) \<Longrightarrow>
   handle_ok w' h = handle_ok w h"
  by (auto simp: handle_ok_def split: option.splits)

lemma count_list_remove1_other: "y \<noteq> x \<Longrightarrow> count_list (remove1 x xs) y = count_list xs y"
  by (induction xs) auto

lemma world_ok_valid_handle:
  "world_ok w \<Longrightarrow> a < length (handles w) \<Longrightarrow> valid_handle w (Some a)"
  by (simp add: world_ok_iff valid_handle_def deref_def)

lemma world_ok_init: "world_ok init_world"
  by (simp add: world_ok_def roots_ok_def init_world_def)

lemma make_facts:
  "handles (fst (mlui_tray_make fs w p)) =
     handles w @ [\<lparr>statusItem = Some (length (items w)), target = None, removed = 0\<rparr>]"
  "length (items (fst (mlui_tray_make fs w p))) = Suc (length (items w))"
  "targets (fst (mlui_tray_make fs w p)) = targets w"
  "globalRoots (fst (mlui_tray_make fs w p)) = globalRoots w"
  by (auto simp: mlui_tray_make_def Let_def prims split: option.splits)

lemma make_world_ok:
  assumes "world_ok w"
  shows "world_ok (fst (mlui_tray_make fs w p))"
proof -
  let ?w' = "fst (mlui_tray_make fs w p)"
  have r: "roots_ok ?w'"
    using assms by (simp add: world_ok_iff roots_ok_iff make_facts)
  have "handle_ok ?w' (handles ?w' ! a)" if "a < length (handles ?w')" for a
  proof (cases "a < length (handles w)")
    case True
    with assms have "handle_ok w (handles w ! a)" by (simp add: world_ok_iff)
    then have "handle_ok ?w' (handles w ! a)"
      by (rule handle_ok_mono) (simp_all add: make_facts)
    with True show ?thesis by (simp add: make_facts nth_append)
  next
    case False
    with that have "a = length (handles w)" by (simp add: make_facts)
    then show ?thesis by (simp add: make_facts handle_ok_def)
  qed
  with r show ?thesis by (simp add: world_ok_iff)
qed

lemma set_title_facts:
  assumes "mlui_tray_set_title w vh t = Inr (w', r)"
  shows "handles w' = handles w" "length (items w') = length (items w)"
    "targets w' = targets w" "globalRoots w' = globalRoots w"
  using assms
  by (auto simp: mlui_tray_set_title_def Let_def prims split: option.splits if_splits)

lemma set_title_world_ok:
  assumes "world_ok w" and "mlui_tray_set_title w vh t = Inr (w', r)"
  shows "world_ok w'"
proof -
  note f = set_title_facts [OF assms(2)]
  have "handle_ok w' h = handle_ok w h" for h
    by (rule handle_ok_cong) (simp_all add: f)
  with assms(1) show ?thesis
    by (simp add: world_ok_iff roots_ok_iff f)
qed

lemma click_facts:
  assumes "click w s = Inr w'"
  shows "handles w' = handles w" "items w' = items w"
    "targets w' = targets w" "globalRoots w' = globalRoots w"
  using assms
  by (auto simp: click_def handleClick_def prims split: option.splits if_splits selector.splits)

lemma click_world_ok:
  assumes "world_ok w" and "click w s = Inr w'"
  shows "world_ok w'"
proof -
  note f = click_facts [OF assms(2)]
  have "handle_ok w' h = handle_ok w h" for h
    by (rule handle_ok_cong) (simp_all add: f)
  with assms(1) show ?thesis
    by (simp add: world_ok_iff roots_ok_iff f)
qed

lemma remove_world_ok:
  assumes ok: "world_ok w" and r: "mlui_tray_remove w vh = Inr w'"
  shows "world_ok w'"
proof (cases vh)
  case None
  with r ok show ?thesis by (simp add: mlui_tray_remove_def)
next
  case (Some a)
  show ?thesis
  proof (cases "deref (handles w) a")
    case None
    with r Some show ?thesis by (simp add: mlui_tray_remove_def)
  next
    case h: (Some h)
    then have a: "a < length (handles w)" "handles w ! a = h"
      by (auto simp: deref_def split: if_splits)
    with ok have hok: "handle_ok w h" by (auto simp: world_ok_iff)
    from ok have rok: "roots_ok w" and all: "\<forall>b<length (handles w). handle_ok w (handles w ! b)"
      by (simp_all add: world_ok_iff)
    show ?thesis
    proof (cases "removed h = 0 \<and> statusItem h \<noteq> None")
      case False
      then have "removed h \<noteq> 0 \<or> statusItem h = None" by simp
      from remove_dead [OF h this] r Some ok show ?thesis by simp
    next
      case True
      then obtain s where s: "removed h = 0" "statusItem h = Some s" by auto
      with hok have sl: "s < length (items w)" by (simp add: handle_ok_def)
      show ?thesis
      proof (cases "target h")
        case None
        from remove_live_no_target [OF h s sl None] r Some
        have w': "w' = w\<lparr>handles := (handles w)[a := h\<lparr>statusItem := None, removed := 1\<rparr>],
            statusBar := removeAll s (statusBar w),
            trace := trace w @ [RemoveStatusItem s, Release (ItemRef s)]\<rparr>"
          by simp
        have c: "handle_ok w' x = handle_ok w x" for x
          by (rule handle_ok_cong) (simp_all add: w')
        have "handle_ok w' (handles w' ! b)" if "b < length (handles w')" for b
          using that all None unfolding c by (cases "b = a") (auto simp: w' handle_ok_def)
        moreover have "roots_ok w'" using rok by (simp add: roots_ok_iff w')
        ultimately show ?thesis by (simp add: world_ok_iff)
      next
        case (Some t)
        with hok have tl: "t < length (targets w)" by (simp add: handle_ok_def)
        from remove_live_target [OF h s sl Some tl] r \<open>vh = Some a\<close>
        have w': "w' = w\<lparr>handles := (handles w)[a := h\<lparr>statusItem := None, target := None, removed := 1\<rparr>],
            targets := (targets w)[t := (targets w ! t)\<lparr>callback := 0\<rparr>],
            statusBar := removeAll s (statusBar w),
            globalRoots := (if callback (targets w ! t) \<noteq> 0 then remove1 t (globalRoots w)
                            else globalRoots w),
            trace := trace w @ [RemoveStatusItem s, Release (ItemRef s)] @
                     (if callback (targets w ! t) \<noteq> 0 then [RemoveGlobalRoot t] else []) @
                     [Release (TargetRef t)]\<rparr>"
          by simp
        have c: "handle_ok w' x = handle_ok w x" for x
          by (rule handle_ok_cong) (simp_all add: w')
        have "handle_ok w' (handles w' ! b)" if "b < length (handles w')" for b
          using that all unfolding c by (cases "b = a") (auto simp: w' handle_ok_def)
        moreover have "roots_ok w'"
          using rok tl
          by (auto simp: roots_ok_iff w' nth_list_update count_list_remove1
              count_list_remove1_other dest: notin_set_remove1)
        ultimately show ?thesis by (simp add: world_ok_iff)
      qed
    qed
  qed
qed

lemma set_on_click_world_ok:
  assumes ok: "world_ok w" and r: "mlui_tray_set_on_click w vh cb = Inr w'" and cb: "cb \<noteq> 0"
  shows "world_ok w'"
proof (cases vh)
  case None
  with r ok show ?thesis by (simp add: mlui_tray_set_on_click_def)
next
  case (Some a)
  show ?thesis
  proof (cases "deref (handles w) a")
    case None
    with r Some show ?thesis by (simp add: mlui_tray_set_on_click_def)
  next
    case h: (Some h)
    then have a: "a < length (handles w)" "handles w ! a = h"
      by (auto simp: deref_def split: if_splits)
    with ok have hok: "handle_ok w h" by (auto simp: world_ok_iff)
    from ok have rok: "roots_ok w" and all: "\<forall>b<length (handles w). handle_ok w (handles w ! b)"
      by (simp_all add: world_ok_iff)
    show ?thesis
    proof (cases "removed h = 0 \<and> statusItem h \<noteq> None")
      case False
      then have "removed h \<noteq> 0 \<or> statusItem h = None" by simp
      from set_on_click_dead [OF h this] r Some ok show ?thesis by simp
    next
      case True
      then obtain s where s: "removed h = 0" "statusItem h = Some s" by auto
      with hok have sl: "s < length (items w)" by (simp add: handle_ok_def)
      show ?thesis
      proof (cases "target h")
        case None
        from set_on_click_live_no_target [OF h s sl None] r Some
        have w': "w' = w\<lparr>handles := (handles w)[a := h\<lparr>target := Some (length (targets w))\<rparr>],
            items := (items w)[s := (items w ! s)\<lparr>button_target := Some (length (targets w)),
                        button_action := Some HandleClick\<rparr>],
            targets := targets w @ [\<lparr>callback = cb\<rparr>],
            globalRoots := globalRoots w @ [length (targets w)],
            trace := trace w @ [RegisterGlobalRoot (length (targets w))],
            console := console w @ [LogClickHandlerSet]\<rparr>"
          by simp
        have "handle_ok w' (handles w' ! b)" if "b < length (handles w')" for b
        proof (cases "b = a")
          case True
          with that s sl show ?thesis by (simp add: w' handle_ok_def)
        next
          case False
          with that all have "handle_ok w (handles w ! b)" by (simp add: w')
          then have "handle_ok w' (handles w ! b)"
            by (rule handle_ok_mono) (simp_all add: w')
          with False that show ?thesis by (simp add: w')
        qed
        moreover have "roots_ok w'"
          using rok cb
          by (auto simp: roots_ok_iff w' nth_append less_Suc_eq count_list_0_iff)
        ultimately show ?thesis by (simp add: world_ok_iff)
      next
        case (Some t)
        with hok have tl: "t < length (targets w)" by (simp add: handle_ok_def)
        from set_on_click_live_target [OF h s sl Some tl] r \<open>vh = Some a\<close>
        have w': "w' = w\<lparr>items := (items w)[s := (items w ! s)\<lparr>button_target := Some t,
                        button_action := Some HandleClick\<rparr>],
            targets := (targets w)[t := (targets w ! t)\<lparr>callback := cb\<rparr>],
            globalRoots := (if callback (targets w ! t) \<noteq> 0 then remove1 t (globalRoots w)
                            else globalRoots w) @ [t],
            trace := trace w @
                     (if callback (targets w ! t) \<noteq> 0 then [RemoveGlobalRoot t] else []) @
                     [RegisterGlobalRoot t],
            console := console w @ [LogClickHandlerSet]\<rparr>"
          by simp
        have c: "handle_ok w' x = handle_ok w x" for x
          by (rule handle_ok_cong) (simp_all add: w')
        have "handle_ok w' (handles w' ! b)" if "b < length (handles w')" for b
          using that all unfolding c by (simp add: w')
        moreover have "roots_ok w'"
          using rok tl cb
          by (auto simp: roots_ok_iff w' nth_list_update count_list_remove1
              count_list_remove1_other dest: notin_set_remove1)
        ultimately show ?thesis by (simp add: world_ok_iff)
      qed
    qed
  qed
qed


lemma apply_op_world_ok:
  assumes "world_ok w" and "op_ok x" and "apply_op fs w x = Inr w'"
  shows "world_ok w'"
proof (cases x)
  case (Make p)
  with assms make_world_ok [of w fs p] show ?thesis by auto
next
  case (SetTitle vh t)
  with assms show ?thesis by (auto split: sum.splits dest: set_title_world_ok)
next
  case (SetOnClick vh cb)
  with assms show ?thesis by (auto dest: set_on_click_world_ok)
next
  case (Remove vh)
  with assms show ?thesis by (auto dest: remove_world_ok)
next
  case (Click s)
  with assms show ?thesis by (auto dest: click_world_ok)
qed

lemma run_world_ok:
  "world_ok w \<Longrightarrow> list_all op_ok xs \<Longrightarrow> run fs w xs = Inr w' \<Longrightarrow> world_ok w'"
proof (induction xs arbitrary: w)
  case Nil
  then show ?case by simp
next
  case (Cons x xs)
  from Cons.prems(3) obtain w1 where w1: "apply_op fs w x = Inr w1" "run fs w1 xs = Inr w'"
    by (auto split: sum.splits)
  from Cons.prems(1,2) w1(1) have "world_ok w1"
    by (auto intro: apply_op_world_ok)
  with Cons.IH [of w1] Cons.prems(2) w1(2) show ?case by simp
qed

lemma reachable_world_ok:
  "list_all op_ok xs \<Longrightarrow> run fs init_world xs = Inr w \<Longrightarrow> world_ok w"
  using world_ok_init by (rule run_world_ok)

subsection \<open>A removed handle holds no references\<close>

lemma removed_ok_init: "list_all removed_ok (handles init_world)"
  by (simp add: init_world_def)

lemma make_removed_ok:
  "list_all removed_ok (handles w) \<Longrightarrow> list_all removed_ok (handles (fst (mlui_tray_make fs w p)))"
  by (simp add: make_handles removed_ok_def)

lemma set_title_removed_ok:
  "mlui_tray_set_title w vh t = Inr (w', r) \<Longrightarrow> list_all removed_ok (handles w) \<Longrightarrow>
   list_all removed_ok (handles w')"
  by (simp add: set_title_handles)

lemma click_removed_ok:
  "click w s = Inr w' \<Longrightarrow> list_all removed_ok (handles w) \<Longrightarrow> list_all removed_ok (handles w')"
  by (simp add: click_handles)

lemma remove_removed_ok:
  "mlui_tray_remove w vh = Inr w' \<Longrightarrow> list_all removed_ok (handles w) \<Longrightarrow>
   list_all removed_ok (handles w')"
  by (auto simp: mlui_tray_remove_def Let_def prims list_all_length nth_list_update removed_ok_def
      split: option.splits if_splits sum.splits)

lemma set_on_click_removed_ok:
  "mlui_tray_set_on_click w vh cb = Inr w' \<Longrightarrow> list_all removed_ok (handles w) \<Longrightarrow>
   list_all removed_ok (handles w')"
  by (auto simp: mlui_tray_set_on_click_def Let_def prims list_all_length nth_list_update
      removed_ok_def split: option.splits if_splits sum.splits prod.splits)

lemma apply_op_removed_ok:
  assumes "list_all removed_ok (handles w)" and "apply_op fs w x = Inr w'"
  shows "list_all removed_ok (handles w')"
proof (cases x)
  case (Make p)
  with assms make_removed_ok [of w fs p] show ?thesis by auto
next
  case (SetTitle vh t)
  with assms show ?thesis by (auto split: sum.splits dest: set_title_removed_ok)
next
  case (SetOnClick vh cb)
  with assms show ?thesis by (auto dest: set_on_click_removed_ok)
next
  case (Remove vh)
  with assms show ?thesis by (auto dest: remove_removed_ok)
next
  case (Click s)
  with assms show ?thesis by (auto dest: click_removed_ok)
qed

lemma run_removed_ok:
  "list_all removed_ok (handles w) \<Longrightarrow> run fs w xs = Inr w' \<Longrightarrow>
   list_all removed_ok (handles w')"
proof (induction xs arbitrary: w)
  case Nil
  then show ?case by simp
next
  case (Cons x xs)
  from Cons.prems(2) obtain w1 where w1: "apply_op fs w x = Inr w1" "run fs w1 xs = Inr w'"
    by (auto split: sum.splits)
  from Cons.prems(1) w1(1) have "list_all removed_ok (handles w1)"
    by (rule apply_op_removed_ok)
  from Cons.IH [OF this w1(2)] show ?case .
qed

text \<open>
  In every world reached from the empty one, a handle struct with the flag set has a
  \<open>nil\<close> status item and a \<open>nil\<close> click target, so its status-item reference
  is in order.
\<close>

lemma reachable_removed_nil:
  assumes "run fs init_world xs = Inr w" and "deref (handles w) a = Some h"
    and "removed h \<noteq> 0"
  shows "statusItem h = None \<and> target h = None \<and> status_ref_ok w h"
proof -
  from removed_ok_init assms(1) have "list_all removed_ok (handles w)"
    by (rule run_removed_ok)
  with assms(2) have "removed_ok h"
    by (auto simp: deref_def list_all_length split: if_splits)
  with assms(3) show ?thesis by (simp add: removed_ok_def status_ref_ok_def)
qed

section \<open>Removed handles\<close>

lemma apply_op_keeps_removed:
  assumes "deref (handles w) a = Some h" and "removed h \<noteq> 0" and "apply_op fs w x = Inr w'"
  shows "deref (handles w') a = Some h"
proof (cases x)
  case (Make p)
  with assms show ?thesis by (auto simp: make_handles deref_def nth_append split: if_splits)
next
  case (SetTitle vh t)
  with assms show ?thesis by (auto simp: set_title_handles split: sum.splits)
next
  case (SetOnClick vh cb)
  show ?thesis
  proof (cases "vh = Some a")
    case True
    with assms SetOnClick show ?thesis by (simp add: set_on_click_dead)
  next
    case False
    with assms SetOnClick set_on_click_handles [of w vh cb w'] show ?thesis
      by (auto simp: deref_def split: if_splits)
  qed
next
  case (Remove vh)
  show ?thesis
  proof (cases "vh = Some a")
    case True
    with assms Remove show ?thesis by (simp add: remove_dead)
  next
    case False
    with assms Remove remove_handles [of w vh w'] show ?thesis
      by (auto simp: deref_def split: if_splits)
  qed
next
  case (Click s)
  with assms show ?thesis by (auto simp: click_handles)
qed

lemma run_keeps_removed:
  "deref (handles w) a = Some h \<Longrightarrow> removed h \<noteq> 0 \<Longrightarrow> run fs w xs = Inr w' \<Longrightarrow>
   deref (handles w') a = Some h"
proof (induction xs arbitrary: w)
  case Nil
  then show ?case by simp
next
  case (Cons x xs)
  from Cons.prems(3) obtain w1 where w1: "apply_op fs w x = Inr w1" "run fs w1 xs = Inr w'"
    by (auto split: sum.splits)
  from Cons.prems(1,2) w1(1) have "deref (handles w1) a = Some h"
    by (rule apply_op_keeps_removed)
  from Cons.IH [OF this Cons.prems(2) w1(2)] show ?case .
qed

text \<open>
  Claim C1. On a handle whose \<open>removed\<close> flag is set, \<open>mlui_tray_set_on_click\<close>
  and \<open>mlui_tray_remove\<close> return without a fault and leave every store, the status
  bar, the global roots and the trace of native calls as they were, and so does
  \<open>mlui_tray_set_title\<close>, which writes its two log lines and returns the handle, when
  the status-item reference of the struct is \<open>nil\<close> (as \<open>mlui_tray_remove\<close> leaves
  it) or addresses an object. No run of operations, on this handle or on any other,
  changes the handle struct again: the handle is never live afterwards.
\<close>

theorem removed_handle_inert:
  assumes "deref (handles w) a = Some h" and "removed h \<noteq> 0"
  shows "(status_ref_ok w h \<longrightarrow>
            (\<exists>w'. mlui_tray_set_title w (Some a) t = Inr (w', Some a) \<and>
                   w'\<lparr>console := console w\<rparr> = w)) \<and>
         mlui_tray_set_on_click w (Some a) cb = Inr w \<and>
         mlui_tray_remove w (Some a) = Inr w \<and>
         (\<forall>xs w'. run fs w xs = Inr w' \<longrightarrow> deref (handles w') a = Some h \<and> \<not> live w' (Some a))"
proof -
  from assms have dead: "removed h \<noteq> 0 \<or> statusItem h = None" by simp
  have 1: "\<exists>w'. mlui_tray_set_title w (Some a) t = Inr (w', Some a) \<and> w'\<lparr>console := console w\<rparr> = w"
    if "status_ref_ok w h"
    by (simp add: set_title_dead [OF assms(1) dead that])
  have 2: "mlui_tray_set_on_click w (Some a) cb = Inr w"
    using assms(1) dead by (rule set_on_click_dead)
  have 3: "mlui_tray_remove w (Some a) = Inr w"
    using assms(1) dead by (rule remove_dead)
  have 4: "deref (handles w') a = Some h \<and> \<not> live w' (Some a)" if "run fs w xs = Inr w'" for xs w'
  proof -
    from assms that have "deref (handles w') a = Some h" by (rule run_keeps_removed)
    with assms(2) show ?thesis by (simp add: live_def)
  qed
  from 1 2 3 4 show ?thesis by blast
qed


theorem removed_handle_inert_witness:
  "deref (handles ex_removed) 0 = Some \<lparr>statusItem = None, target = None, removed = 1\<rparr> \<and>
   removed \<lparr>statusItem = None, target = None, removed = 1\<rparr> \<noteq> 0 \<and>
   status_ref_ok ex_removed \<lparr>statusItem = None, target = None, removed = 1\<rparr> \<and>
   mlui_tray_set_on_click ex_removed (Some 0) 0x2000 = Inr ex_removed \<and>
   mlui_tray_remove ex_removed (Some 0) = Inr ex_removed \<and>
   (\<exists>w'. mlui_tray_set_title ex_removed (Some 0) ''Inbox'' = Inr (w', Some 0) \<and>
         w'\<lparr>console := console ex_removed\<rparr> = ex_removed)"
proof -
  have d: "deref (handles ex_removed) 0 = Some \<lparr>statusItem = None, target = None, removed = 1\<rparr>"
    by (simp add: ex_removed_eq deref_def)
  have r: "removed \<lparr>statusItem = None, target = None, removed = 1\<rparr> \<noteq> 0"
    by simp
  have k: "status_ref_ok ex_removed \<lparr>statusItem = None, target = None, removed = 1\<rparr>"
    by (simp add: status_ref_ok_def)
  from removed_handle_inert [OF d r, of "''Inbox''" "0x2000" ex_fs] d r k show ?thesis
    by blast
qed

section \<open>Removal\<close>

lemma remove_total:
  assumes "valid_handle w vh"
  shows "\<exists>w1 d. mlui_tray_remove w vh = Inr w1 \<and> trace w1 = trace w @ d \<and>
           (\<forall>x. count_list d (Release x) \<le> 1) \<and>
           (\<forall>t. count_list d (RemoveGlobalRoot t) \<le> 1) \<and>
           (\<forall>a. vh = Some a \<longrightarrow> (\<exists>h'. deref (handles w1) a = Some h' \<and> 
                 (removed h' \<noteq> 0 \<or> statusItem h' = None)))"
proof (cases vh)
  case None
  then show ?thesis by (simp add: mlui_tray_remove_def)
next
  case (Some a)
  with assms obtain h where h: "deref (handles w) a = Some h" and ok: "handle_ok w h"
    by (auto simp: valid_handle_def split: option.splits)
  from h have a: "a < length (handles w)" by (auto simp: deref_def split: if_splits)
  show ?thesis
  proof (cases "removed h = 0 \<and> statusItem h \<noteq> None")
    case False
    then have dead: "removed h \<noteq> 0 \<or> statusItem h = None" by simp
    with h Some show ?thesis by (simp add: remove_dead [OF h dead])
  next
    case True
    then obtain s where s: "removed h = 0" "statusItem h = Some s" by auto
    with ok have sl: "s < length (items w)" by (simp add: handle_ok_def)
    show ?thesis
    proof (cases "target h")
      case None
      show ?thesis using a Some
        by (simp add: remove_live_no_target [OF h s sl None] deref_def)
    next
      case (Some t)
      with ok have tl: "t < length (targets w)" by (simp add: handle_ok_def)
      show ?thesis using a \<open>vh = Some a\<close>
        by (simp add: remove_live_target [OF h s sl Some tl] deref_def)
    qed
  qed
qed

text \<open>
  Claim C2. On a null handle or a handle whose pointers address objects,
  \<open>mlui_tray_remove\<close> returns a world on which a second \<open>mlui_tray_remove\<close> changes
  nothing, the handle is not live there, and the native calls of the two calls together
  hold at most one \<open>release\<close> of each object and at most one
  \<open>caml_remove_global_root\<close> of each callback slot.
\<close>

theorem remove_idempotent:
  assumes "valid_handle w vh"
  shows "\<exists>w1 d. mlui_tray_remove w vh = Inr w1 \<and> mlui_tray_remove w1 vh = Inr w1 \<and>
           \<not> live w1 vh \<and> trace w1 = trace w @ d \<and>
           (\<forall>x. count_list d (Release x) \<le> 1) \<and>
           (\<forall>t. count_list d (RemoveGlobalRoot t) \<le> 1)"
proof -
  from remove_total [OF assms] obtain w1 d where
    r: "mlui_tray_remove w vh = Inr w1" "trace w1 = trace w @ d"
       "\<forall>x. count_list d (Release x) \<le> 1" "\<forall>t. count_list d (RemoveGlobalRoot t) \<le> 1"
       "\<forall>a. vh = Some a \<longrightarrow> (\<exists>h'. deref (handles w1) a = Some h' \<and> 
                 (removed h' \<noteq> 0 \<or> statusItem h' = None))"
    by blast
  have again: "mlui_tray_remove w1 vh = Inr w1 \<and> \<not> live w1 vh"
  proof (cases vh)
    case None
    then show ?thesis by (simp add: mlui_tray_remove_def live_def)
  next
    case (Some a)
    with r(5) obtain h' where h': "deref (handles w1) a = Some h'"
      "removed h' \<noteq> 0 \<or> statusItem h' = None" by blast
    from remove_dead [OF h'] h' Some show ?thesis by (auto simp: live_def)
  qed
  with r show ?thesis by blast
qed

theorem remove_idempotent_witness:
  "valid_handle ex_clickable (Some 0) \<and>
   mlui_tray_remove ex_clickable (Some 0) = Inr ex_removed \<and>
   mlui_tray_remove ex_removed (Some 0) = Inr ex_removed \<and>
   (\<exists>d. trace ex_removed = trace ex_clickable @ d \<and> 
     (\<forall>x. count_list d (Release x) \<le> 1) \<and>
           (\<forall>t. count_list d (RemoveGlobalRoot t) \<le> 1))"
proof -
  have v: "valid_handle ex_clickable (Some 0)"
    by (simp add: ex_clickable_eq valid_handle_def handle_ok_def deref_def)
  have r: "mlui_tray_remove ex_clickable (Some 0) = Inr ex_removed"
    by (simp add: ex_removed_eq) (simp add: ex_clickable_eq mlui_tray_remove_def Let_def prims)
  from remove_idempotent [OF v] r v show ?thesis by auto
qed

section \<open>Click callbacks\<close>

lemma click_registered:
  assumes "deref (items w) s = Some it" and "button_action it = Some HandleClick"
    and "button_target it = Some t" and "deref (targets w) t = Some tg" and "callback tg \<noteq> 0"
  shows "click w s = Inr (w\<lparr>trace := trace w @ [CamlCallback (callback tg)]\<rparr>)"
  using assms by (simp add: click_def handleClick_def act_def)

text \<open>Replacing a callback on a handle that has a click target.\<close>

lemma set_on_click_replace:
  assumes h: "deref (handles w) a = Some h" "removed h = 0" "statusItem h = Some s"
    "s < length (items w)" "target h = Some t" "t < length (targets w)"
    and cnt: "count_list (globalRoots w) t = (if callback (targets w ! t) = 0 then 0 else 1)"
    and B: "B \<noteq> 0"
  shows "\<exists>w2 w3. mlui_tray_set_on_click w (Some a) B = Inr w2 \<and>
           deref (handles w2) a = Some h \<and> 
           length (items w2) = length (items w) \<and> length (targets w2) = length (targets w) \<and>
           callback (targets w2 ! t) = B \<and>
           count_list (globalRoots w2) t = 1 \<and>
           trace w2 = trace w @ (if callback (targets w ! t) \<noteq> 0 then [RemoveGlobalRoot t] else []) @
                     [RegisterGlobalRoot t] \<and>
           click w2 s = Inr w3 \<and> trace w3 = trace w2 @ [CamlCallback B]"
proof -
  let ?w2 = "w\<lparr>items := (items w)[s := (items w ! s)\<lparr>button_target := Some t,
                        button_action := Some HandleClick\<rparr>],
            targets := (targets w)[t := (targets w ! t)\<lparr>callback := B\<rparr>],
            globalRoots := (if callback (targets w ! t) \<noteq> 0 then remove1 t (globalRoots w)
                            else globalRoots w) @ [t],
            trace := trace w @
                     (if callback (targets w ! t) \<noteq> 0 then [RemoveGlobalRoot t] else []) @
                     [RegisterGlobalRoot t],
            console := console w @ [LogClickHandlerSet]\<rparr>"
  have eq: "mlui_tray_set_on_click w (Some a) B = Inr ?w2"
    by (rule set_on_click_live_target [OF h])
  have c: "click ?w2 s = Inr (?w2\<lparr>trace := trace ?w2 @ [CamlCallback B]\<rparr>)"
    using h B by (simp add: click_def handleClick_def prims)
  have n: "count_list (globalRoots ?w2) t = 1"
    using cnt by (simp add: count_list_remove1)
  show ?thesis
    unfolding eq using h c n by simp
qed

lemma set_on_click_first:
  assumes h: "deref (handles w) a = Some h" "removed h = 0" "statusItem h = Some s"
    "s < length (items w)" "target h = None"
    and cnt: "count_list (globalRoots w) (length (targets w)) = 0"
    and B: "B \<noteq> 0"
  shows "\<exists>w2 w3. mlui_tray_set_on_click w (Some a) B = Inr w2 \<and>
           deref (handles w2) a = Some (h\<lparr>target := Some (length (targets w))\<rparr>) \<and> 
           length (items w2) = length (items w) \<and> length (targets w2) = Suc (length (targets w)) \<and>
           callback (targets w2 ! length (targets w)) = B \<and>
           count_list (globalRoots w2) (length (targets w)) = 1 \<and>
           trace w2 = trace w @ [RegisterGlobalRoot (length (targets w))] \<and>
           click w2 s = Inr w3 \<and> trace w3 = trace w2 @ [CamlCallback B]"
proof -
  let ?t = "length (targets w)"
  let ?w2 = "w\<lparr>handles := (handles w)[a := h\<lparr>target := Some (length (targets w))\<rparr>],
            items := (items w)[s := (items w ! s)\<lparr>button_target := Some (length (targets w)),
                        button_action := Some HandleClick\<rparr>],
            targets := targets w @ [\<lparr>callback = B\<rparr>],
            globalRoots := globalRoots w @ [length (targets w)],
            trace := trace w @ [RegisterGlobalRoot (length (targets w))],
            console := console w @ [LogClickHandlerSet]\<rparr>"
  have eq: "mlui_tray_set_on_click w (Some a) B = Inr ?w2"
    by (rule set_on_click_live_no_target [OF h])
  have c: "click ?w2 s = Inr (?w2\<lparr>trace := trace ?w2 @ [CamlCallback B]\<rparr>)"
    using h B by (simp add: click_def handleClick_def prims)
  have n: "count_list (globalRoots ?w2) ?t = 1"
    using cnt by simp
  have a: "a < length (handles w)" using h(1) by (auto simp: deref_def split: if_splits)
  show ?thesis
    unfolding eq using h c n a by (simp add: deref_def)
qed


text \<open>
  Claim C3. On a live handle, in a world whose global roots are the non-empty callback
  slots, \<open>mlui_tray_set_on_click\<close> with a callback \<open>A\<close> and then with a callback
  \<open>B\<close> (OCaml closures, so neither is the word \<open>0\<close>) leaves \<open>B\<close> in the
  handle's callback slot. A click on the status item then calls \<open>caml_callback\<close>
  once, on \<open>B\<close>, and not on \<open>A\<close> when \<open>A\<close> is another closure. The second call
  makes exactly two calls into the runtime, \<open>caml_remove_global_root\<close> on the slot
  and then \<open>caml_register_global_root\<close> on it, and the slot is registered exactly
  once after each of the two calls.
\<close>

theorem set_on_click_replaces:
  assumes "live w (Some a)" and "valid_handle w (Some a)" and "roots_ok w"
    and "A \<noteq> 0" and "B \<noteq> 0"
  shows "\<exists>w1 w2 w3 h2 s t d.
           mlui_tray_set_on_click w (Some a) A = Inr w1 \<and>
           mlui_tray_set_on_click w1 (Some a) B = Inr w2 \<and>
           deref (handles w1) a = Some h2 \<and> deref (handles w2) a = Some h2 \<and>
           statusItem h2 = Some s \<and> target h2 = Some t \<and>
           callback (targets w1 ! t) = A \<and> callback (targets w2 ! t) = B \<and>
           count_list (globalRoots w1) t = 1 \<and> count_list (globalRoots w2) t = 1 \<and>
           trace w2 = trace w1 @ [RemoveGlobalRoot t, RegisterGlobalRoot t] \<and>
           click w2 s = Inr w3 \<and> trace w3 = trace w2 @ d \<and>
           count_list d (CamlCallback B) = 1 \<and>
           (A \<noteq> B \<longrightarrow> count_list d (CamlCallback A) = 0)"
proof -
  from assms(1,2) obtain h s where h: "deref (handles w) a = Some h" "removed h = 0"
    "statusItem h = Some s" "s < length (items w)"
    and tg: "target h = None \<or> (\<exists>t. target h = Some t \<and> t < length (targets w))"
    by (rule live_valid_cases)
  have first: "\<exists>w1 h2 t. mlui_tray_set_on_click w (Some a) A = Inr w1 \<and>
      deref (handles w1) a = Some h2 \<and> removed h2 = 0 \<and> statusItem h2 = Some s \<and>
      target h2 = Some t \<and> s < length (items w1) \<and> t < length (targets w1) \<and>
      callback (targets w1 ! t) = A \<and> count_list (globalRoots w1) t = 1"
  proof (cases "target h")
    case None
    from set_on_click_first [OF h None roots_ok_fresh [OF assms(3)] assms(4)] h
    show ?thesis by auto
  next
    case (Some t)
    with tg have tl: "t < length (targets w)" by simp
    from set_on_click_replace [OF h Some tl roots_ok_count [OF assms(3) tl] assms(4)] h Some tl
    show ?thesis by auto
  qed
  then obtain w1 h2 t where w1: "mlui_tray_set_on_click w (Some a) A = Inr w1"
    and h2: "deref (handles w1) a = Some h2" "removed h2 = 0" "statusItem h2 = Some s"
      "s < length (items w1)" "target h2 = Some t" "t < length (targets w1)"
    and cb: "callback (targets w1 ! t) = A" and cnt: "count_list (globalRoots w1) t = 1"
    by blast
  from cb cnt assms(4)
  have cnt': "count_list (globalRoots w1) t = (if callback (targets w1 ! t) = 0 then 0 else 1)"
    by simp
  from set_on_click_replace [OF h2 cnt' assms(5)] cb assms(4)
  obtain w2 w3 where w2: "mlui_tray_set_on_click w1 (Some a) B = Inr w2"
    "deref (handles w2) a = Some h2" "callback (targets w2 ! t) = B"
    "count_list (globalRoots w2) t = 1"
    "trace w2 = trace w1 @ [RemoveGlobalRoot t, RegisterGlobalRoot t]"
    "click w2 s = Inr w3" "trace w3 = trace w2 @ [CamlCallback B]"
    by auto
  have d: "count_list [CamlCallback B] (CamlCallback B) = 1"
    "A \<noteq> B \<longrightarrow> count_list [CamlCallback B] (CamlCallback A) = 0"
    by auto
  from w1 h2 cb cnt w2 d show ?thesis by blast
qed



theorem set_on_click_replaces_witness:
  "live ex_made (Some 0) \<and> valid_handle ex_made (Some 0) \<and> roots_ok ex_made \<and>
   (0x1000 :: value) \<noteq> 0 \<and> (0x2000 :: value) \<noteq> 0 \<and>
   (\<exists>w1 w2 w3 h2 s t d.
           mlui_tray_set_on_click ex_made (Some 0) 0x1000 = Inr w1 \<and>
           mlui_tray_set_on_click w1 (Some 0) 0x2000 = Inr w2 \<and>
           deref (handles w1) 0 = Some h2 \<and> deref (handles w2) 0 = Some h2 \<and>
           statusItem h2 = Some s \<and> target h2 = Some t \<and>
           callback (targets w1 ! t) = 0x1000 \<and> callback (targets w2 ! t) = 0x2000 \<and>
           count_list (globalRoots w1) t = 1 \<and> count_list (globalRoots w2) t = 1 \<and>
           trace w2 = trace w1 @ [RemoveGlobalRoot t, RegisterGlobalRoot t] \<and>
           click w2 s = Inr w3 \<and> trace w3 = trace w2 @ d \<and>
           count_list d (CamlCallback 0x2000) = 1 \<and>
           ((0x1000 :: value) \<noteq> 0x2000 \<longrightarrow> count_list d (CamlCallback 0x1000) = 0))"
proof -
  have l: "live ex_made (Some 0)"
    by (simp add: ex_made_eq live_def deref_def)
  have v: "valid_handle ex_made (Some 0)"
    by (simp add: ex_made_eq valid_handle_def handle_ok_def deref_def)
  have r: "roots_ok ex_made"
    by (simp add: ex_made_eq roots_ok_def)
  have A: "(0x1000 :: value) \<noteq> 0" and B: "(0x2000 :: value) \<noteq> 0"
    by simp_all
  from set_on_click_replaces [OF l v r A B] l v r A B show ?thesis
    by blast
qed

section \<open>Creation\<close>

lemma make_None:
  "mlui_tray_make fs w None =
     (w\<lparr>handles := handles w @ [\<lparr>statusItem = Some (length (items w)), target = None, removed = 0\<rparr>],
        items := items w @ [new_status_item\<lparr>button_title := '' ''\<rparr>],
        statusBar := statusBar w @ [length (items w)],
        nsApp := (case nsApp w of None \<Rightarrow> Some Accessory | Some p \<Rightarrow> Some p),
        trace := trace w @ [Retain (ItemRef (length (items w))), SizeToFit (length (items w))],
        console := console w @ [LogCreating, LogStatusItemCreated (length (items w)),
                     LogButton (length (items w)), LogHandleCreated (length (handles w))]\<rparr>,
      Some (length (handles w)))"
  by (cases w) (simp add: mlui_tray_make_def Let_def prims new_status_item_def)

lemma make_Some_failed:
  assumes "mlui_make_image_from_path fs (String_val p) = None"
  shows "mlui_tray_make fs w (Some p) =
     (w\<lparr>handles := handles w @ [\<lparr>statusItem = Some (length (items w)), target = None, removed = 0\<rparr>],
        items := items w @ [new_status_item],
        statusBar := statusBar w @ [length (items w)],
        nsApp := (case nsApp w of None \<Rightarrow> Some Accessory | Some p \<Rightarrow> Some p),
        trace := trace w @ [Retain (ItemRef (length (items w)))],
        console := console w @ [LogCreating, LogStatusItemCreated (length (items w)),
                     LogButton (length (items w)), LogHandleCreated (length (handles w))]\<rparr>,
      Some (length (handles w)))"
  using assms by (cases w) (simp add: mlui_tray_make_def Let_def prims new_status_item_def)

lemma make_Some_loaded:
  assumes "mlui_make_image_from_path fs (String_val p) = Some img"
  shows "mlui_tray_make fs w (Some p) =
     (w\<lparr>handles := handles w @ [\<lparr>statusItem = Some (length (items w)), target = None, removed = 0\<rparr>],
        items := items w @ [new_status_item\<lparr>button_image := Some img\<rparr>],
        statusBar := statusBar w @ [length (items w)],
        nsApp := (case nsApp w of None \<Rightarrow> Some Accessory | Some p \<Rightarrow> Some p),
        trace := trace w @ [Retain (ItemRef (length (items w))), SizeToFit (length (items w))],
        console := console w @ [LogCreating, LogStatusItemCreated (length (items w)),
                     LogButton (length (items w)), LogHandleCreated (length (handles w))]\<rparr>,
      Some (length (handles w)))"
  using assms by (cases w) (simp add: mlui_tray_make_def Let_def prims new_status_item_def)

text \<open>
  Claim C4. \<open>mlui_tray_make\<close> without an image path returns a live handle whose
  status item is visible and shows the one-space title, which is not empty.
\<close>

theorem make_None_placeholder:
  "\<exists>w' vh it. mlui_tray_make fs w None = (w', vh) \<and> live w' vh \<and> valid_handle w' vh \<and>
      item_of w' vh = Some it \<and> button_title it = '' '' \<and> button_title it \<noteq> [] \<and>
      button_image it = None \<and> visible it \<and> \<not> button_hidden it"
  by (simp add: make_None live_def valid_handle_def handle_ok_def item_of_def deref_def
      new_status_item_def)

theorem make_None_placeholder_witness:
  "\<exists>w' it. mlui_tray_make ex_fs init_world None = (w', Some 0) \<and> live w' (Some 0) \<and>
      valid_handle w' (Some 0) \<and> item_of w' (Some 0) = Some it \<and> button_title it = '' '' \<and>
      button_title it \<noteq> [] \<and> button_image it = None \<and> visible it \<and> \<not> button_hidden it"
  using make_None_placeholder [of ex_fs init_world]
  by (auto simp add: make_None init_world_def)

text \<open>
  Claim C5. When the image at the given path does not load, \<open>mlui_tray_make\<close>
  returns a live handle all the same (it has no error result). The status item carries
  no image and is exactly the item as the status bar created it: the only native call
  is the \<open>retain\<close>, with no \<open>sizeToFit\<close>.
\<close>

theorem make_failed_image_silent:
  assumes "mlui_make_image_from_path fs (String_val p) = None"
  shows "\<exists>w' vh it. mlui_tray_make fs w (Some p) = (w', vh) \<and> live w' vh \<and>
      valid_handle w' vh \<and> item_of w' vh = Some it \<and> button_image it = None \<and>
      it = new_status_item \<and>
      trace w' = trace w @ [Retain (ItemRef (length (items w)))]"
  by (simp add: make_Some_failed [OF assms] live_def valid_handle_def handle_ok_def item_of_def
      deref_def new_status_item_def)

text \<open>
  Claim C9. When the image at the given path does not load, the status item of the new
  handle has neither an image nor a title, whereas the item made without a path has a
  title that is not empty.
\<close>

theorem make_failed_image_empty:
  assumes "mlui_make_image_from_path fs (String_val p) = None"
  shows "\<exists>w' vh it w0 vh0 it0. mlui_tray_make fs w (Some p) = (w', vh) \<and>
      item_of w' vh = Some it \<and> button_image it = None \<and> button_title it = [] \<and>
      mlui_tray_make fs w None = (w0, vh0) \<and> item_of w0 vh0 = Some it0 \<and>
      button_title it0 \<noteq> []"
  by (simp add: make_Some_failed [OF assms] make_None item_of_def deref_def new_status_item_def)

lemma ex_fs_missing: "mlui_make_image_from_path ex_fs (String_val ''missing.png'') = None"
  by (simp add: mlui_make_image_from_path_def String_val_def stringWithCString_def ex_fs_def)

theorem make_failed_image_silent_witness:
  "mlui_make_image_from_path ex_fs (String_val ''missing.png'') = None \<and>
   (\<exists>w' vh it. mlui_tray_make ex_fs init_world (Some ''missing.png'') = (w', vh) \<and> live w' vh \<and>
      valid_handle w' vh \<and> item_of w' vh = Some it \<and> button_image it = None \<and>
      it = new_status_item \<and>
      trace w' = trace init_world @ [Retain (ItemRef (length (items init_world)))])"
  using make_failed_image_silent [OF ex_fs_missing, of init_world] ex_fs_missing by blast

theorem make_failed_image_empty_witness:
  "mlui_make_image_from_path ex_fs (String_val ''missing.png'') = None \<and>
   (\<exists>w' vh it w0 vh0 it0. mlui_tray_make ex_fs ex_made (Some ''missing.png'') = (w', vh) \<and>
      item_of w' vh = Some it \<and> button_image it = None \<and> button_title it = [] \<and>
      mlui_tray_make ex_fs ex_made None = (w0, vh0) \<and> item_of w0 vh0 = Some it0 \<and>
      button_title it0 \<noteq> [])"
  using make_failed_image_empty [OF ex_fs_missing, of ex_made] ex_fs_missing by blast

section \<open>Titles\<close>

text \<open>
  Claim C6, as amended. On a live handle \<open>mlui_tray_set_title\<close> returns the handle it
  was given, clears the image, leaves the item visible and its button not hidden, and
  sets the title to the given text up to its first NUL byte: to exactly the given text
  when the text holds no NUL byte.
\<close>

theorem set_title_shows_c_string:
  assumes "live w (Some a)" and "valid_handle w (Some a)"
  shows "\<exists>w' it. mlui_tray_set_title w (Some a) t = Inr (w', Some a) \<and>
           live w' (Some a) \<and> item_of w' (Some a) = Some it \<and>
           button_image it = None \<and>
           button_title it = takeWhile (\<lambda>c. c \<noteq> CHR 0x00) t \<and>
           (CHR 0x00 \<notin> set t \<longrightarrow> button_title it = t) \<and>
           visible it \<and> \<not> button_hidden it"
proof -
  from assms obtain h s where h: "deref (handles w) a = Some h" "removed h = 0"
    "statusItem h = Some s" "s < length (items w)"
    and a: "a < length (handles w)" "handles w ! a = h"
    by (rule live_valid_cases)
  have nul: "takeWhile (\<lambda>c. c \<noteq> CHR 0x00) t = t" if "CHR 0x00 \<notin> set t"
    using that by (auto simp add: takeWhile_eq_all_conv)
  show ?thesis
    using h a nul
    by (auto simp add: set_title_live [OF h] live_def item_of_def deref_def String_val_def)
qed

text \<open>
  Claim C6 as stated fails for a title with a NUL byte: on the handle made with an
  image, the title \<open>a\<close>, NUL, \<open>b\<close> is shown as \<open>a\<close>.
\<close>

theorem set_title_truncates_at_nul:
  "live ex_made (Some 0) \<and>
   map_option button_image (item_of ex_made (Some 0)) = Some (Some 7) \<and>
   \<not> isl (mlui_tray_set_title ex_made (Some 0) [CHR ''a'', CHR 0x00, CHR ''b'']) \<and>
   map_option button_title
     (item_of (fst (projr (mlui_tray_set_title ex_made (Some 0) [CHR ''a'', CHR 0x00, CHR ''b''])))
        (Some 0)) = Some ''a'' \<and>
   ''a'' \<noteq> [CHR ''a'', CHR 0x00, CHR ''b'']"
  by (simp add: ex_made_eq mlui_tray_set_title_def Let_def prims live_def
      item_of_def String_val_def stringWithCString_def)

theorem set_title_shows_c_string_witness:
  "live ex_made (Some 0) \<and> valid_handle ex_made (Some 0) \<and>
   (\<exists>w' it. mlui_tray_set_title ex_made (Some 0) ''Inbox'' = Inr (w', Some 0) \<and>
           live w' (Some 0) \<and> item_of w' (Some 0) = Some it \<and>
           button_image it = None \<and>
           button_title it = takeWhile (\<lambda>c. c \<noteq> CHR 0x00) ''Inbox'' \<and>
           (CHR 0x00 \<notin> set ''Inbox'' \<longrightarrow> button_title it = ''Inbox'') \<and>
           visible it \<and> \<not> button_hidden it)"
proof -
  have l: "live ex_made (Some 0)" 
    by (simp add: ex_made_eq live_def deref_def)
  have v: "valid_handle ex_made (Some 0)" 
    by (simp add: ex_made_eq valid_handle_def handle_ok_def deref_def)
  from set_title_shows_c_string [OF l v, of "''Inbox''"] l v show ?thesis by blast
qed

text \<open>
  Claim C10. On a live handle \<open>mlui_tray_set_title\<close> changes nothing but the image,
  title, hidden and visible fields of the handle's status item (and asks for
  \<open>sizeToFit\<close>): the handle structs with their \<open>target\<close> and \<open>removed\<close>
  fields, the click targets with their callbacks, the global roots, and the target and
  action of the item's button stay as they were.
\<close>

theorem set_title_frame:
  assumes "live w (Some a)" and "valid_handle w (Some a)"
  shows "\<exists>w' s it. mlui_tray_set_title w (Some a) t = Inr (w', Some a) \<and>
           handles w' = handles w \<and> targets w' = targets w \<and>
           globalRoots w' = globalRoots w \<and> statusBar w' = statusBar w \<and>
           nsApp w' = nsApp w \<and>
           map_option statusItem (deref (handles w) a) = Some (Some s) \<and>
           deref (items w) s = Some it \<and>
           items w' = (items w)[s := it\<lparr>button_image := None, button_title := String_val t,
                                       button_hidden := False, visible := True\<rparr>] \<and>
           map_option button_target (deref (items w') s) = Some (button_target it) \<and>
           map_option button_action (deref (items w') s) = Some (button_action it) \<and>
           trace w' = trace w @ [SizeToFit s]"
proof -
  from assms obtain h s where h: "deref (handles w) a = Some h" "removed h = 0"
    "statusItem h = Some s" "s < length (items w)"
    by (rule live_valid_cases)
  show ?thesis
    using h by (simp add: set_title_live [OF h] deref_def)
qed

theorem set_title_frame_witness:
  "live ex_clickable (Some 0) \<and> valid_handle ex_clickable (Some 0) \<and>
   (\<exists>w' s it. mlui_tray_set_title ex_clickable (Some 0) ''Inbox'' = Inr (w', Some 0) \<and>
           handles w' = handles ex_clickable \<and> targets w' = targets ex_clickable \<and>
           globalRoots w' = globalRoots ex_clickable \<and> statusBar w' = statusBar ex_clickable \<and>
           nsApp w' = nsApp ex_clickable \<and>
           map_option statusItem (deref (handles ex_clickable) 0) = Some (Some s) \<and>
           deref (items ex_clickable) s = Some it \<and>
           items w' = (items ex_clickable)[s := it\<lparr>button_image := None,
                          button_title := String_val ''Inbox'',
                          button_hidden := False, visible := True\<rparr>] \<and>
           map_option button_target (deref (items w') s) = Some (button_target it) \<and>
           map_option button_action (deref (items w') s) = Some (button_action it) \<and>
           trace w' = trace ex_clickable @ [SizeToFit s])"
proof -
  have l: "live ex_clickable (Some 0)" 
    by (simp add: ex_clickable_eq live_def deref_def)
  have v: "valid_handle ex_clickable (Some 0)" 
    by (simp add: ex_clickable_eq valid_handle_def handle_ok_def deref_def)
  from set_title_frame [OF l v, of "''Inbox''"] l v show ?thesis by blast
qed

section \<open>Clicks\<close>

text \<open>
  Claim C7. \<open>handleClick:\<close> on a click target whose callback slot is empty returns
  without calling \<open>caml_callback\<close> and without a fault: the world is unchanged.
\<close>

theorem handleClick_empty_slot:
  assumes "deref (targets w) t = Some tg" and "callback tg = 0"
  shows "handleClick w t = Inr w"
  using assms by (simp add: handleClick_def)

theorem handleClick_empty_slot_witness:
  "deref (targets ex_removed) 0 = Some \<lparr>callback = 0\<rparr> \<and> callback \<lparr>callback = 0\<rparr> = 0 \<and>
   handleClick ex_removed 0 = Inr ex_removed"
proof -
  have d: "deref (targets ex_removed) 0 = Some \<lparr>callback = 0\<rparr>"
    by (simp add: ex_removed_eq deref_def)
  have c: "callback \<lparr>callback = 0\<rparr> = 0" by simp
  from handleClick_empty_slot [OF d c] d c show ?thesis by blast
qed

section \<open>Dead handles\<close>

text \<open>
  Claim C8, as amended. Each operation runs its body only under
  \<open>handle && !handle->removed && handle->statusItem\<close>. On a null handle pointer all
  three operations return without a fault and change nothing but the log. On a handle
  struct whose flag is set or whose status item is \<open>nil\<close>,
  \<open>mlui_tray_set_on_click\<close> and \<open>mlui_tray_remove\<close> return the world unchanged, and
  \<open>mlui_tray_set_title\<close> changes nothing but the log when the status-item reference
  of the struct is \<open>nil\<close> or addresses an object.
\<close>

theorem failed_guard_noop:
  "(\<exists>w'. mlui_tray_set_title w None t = Inr (w', None) \<and> w'\<lparr>console := console w\<rparr> = w) \<and>
   mlui_tray_set_on_click w None cb = Inr w \<and>
   mlui_tray_remove w None = Inr w \<and>
   (\<forall>a h. deref (handles w) a = Some h \<and> (removed h \<noteq> 0 \<or> statusItem h = None) \<longrightarrow>
      mlui_tray_set_on_click w (Some a) cb = Inr w \<and>
      mlui_tray_remove w (Some a) = Inr w \<and>
      (status_ref_ok w h \<longrightarrow>
         (\<exists>w'. mlui_tray_set_title w (Some a) t = Inr (w', Some a) \<and>
                w'\<lparr>console := console w\<rparr> = w)))"
proof -
  have 1: "\<exists>w'. mlui_tray_set_title w None t = Inr (w', None) \<and> w'\<lparr>console := console w\<rparr> = w"
    by (simp add: set_title_null)
  have 2: "mlui_tray_set_on_click w None cb = Inr w"
    by (simp add: mlui_tray_set_on_click_def)
  have 3: "mlui_tray_remove w None = Inr w"
    by (simp add: mlui_tray_remove_def)
  have 4: "mlui_tray_set_on_click w (Some a) cb = Inr w \<and> mlui_tray_remove w (Some a) = Inr w"
    if "deref (handles w) a = Some h" "removed h \<noteq> 0 \<or> statusItem h = None" for a h
    using that by (simp add: set_on_click_dead [OF that] remove_dead [OF that])
  have 5: "\<exists>w'. mlui_tray_set_title w (Some a) t = Inr (w', Some a) \<and>
             w'\<lparr>console := console w\<rparr> = w"
    if "deref (handles w) a = Some h" "removed h \<noteq> 0 \<or> statusItem h = None"
      "status_ref_ok w h" for a h
    by (simp add: set_title_dead [OF that])
  from 1 2 3 4 5 show ?thesis by blast
qed

theorem failed_guard_noop_witness:
  "deref (handles ex_removed) 0 = Some \<lparr>statusItem = None, target = None, removed = 1\<rparr> \<and>
   removed \<lparr>statusItem = None, target = None, removed = 1\<rparr> = 1 \<and>
   statusItem \<lparr>statusItem = None, target = None, removed = 1\<rparr> = None \<and>
   status_ref_ok ex_removed \<lparr>statusItem = None, target = None, removed = 1\<rparr> \<and>
   (\<exists>w'. mlui_tray_set_title ex_removed (Some 0) ''Inbox'' = Inr (w', Some 0) \<and>
         w'\<lparr>console := console ex_removed\<rparr> = ex_removed) \<and>
   mlui_tray_set_on_click ex_removed (Some 0) 0x2000 = Inr ex_removed \<and>
   mlui_tray_remove ex_removed (Some 0) = Inr ex_removed \<and>
   mlui_tray_set_on_click ex_clickable None 0x2000 = Inr ex_clickable \<and>
   mlui_tray_remove ex_clickable None = Inr ex_clickable"
proof -
  have d: "deref (handles ex_removed) 0 = Some \<lparr>statusItem = None, target = None, removed = 1\<rparr>"
    by (simp add: ex_removed_eq deref_def)
  have r: "removed \<lparr>statusItem = None, target = None, removed = 1\<rparr> \<noteq> 0 \<or>
    statusItem \<lparr>statusItem = None, target = None, removed = 1\<rparr> = None"
    by simp
  have k: "status_ref_ok ex_removed \<lparr>statusItem = None, target = None, removed = 1\<rparr>"
    by (simp add: status_ref_ok_def)
  from failed_guard_noop [of ex_removed "''Inbox''" "0x2000"] d r
  have dead: "mlui_tray_set_on_click ex_removed (Some 0) 0x2000 = Inr ex_removed \<and>
      mlui_tray_remove ex_removed (Some 0) = Inr ex_removed \<and>
      (status_ref_ok ex_removed \<lparr>statusItem = None, target = None, removed = 1\<rparr> \<longrightarrow>
         (\<exists>w'. mlui_tray_set_title ex_removed (Some 0) ''Inbox'' = Inr (w', Some 0) \<and>
                w'\<lparr>console := console ex_removed\<rparr> = ex_removed))"
    by blast
  from failed_guard_noop [of ex_clickable "''Inbox''" "0x2000"]
  have null: "mlui_tray_set_on_click ex_clickable None 0x2000 = Inr ex_clickable \<and>
      mlui_tray_remove ex_clickable None = Inr ex_clickable"
    by blast
  from dead null d k show ?thesis by simp
qed

text \<open>
  Claim C8 as stated fails on corrupted handles that the test does not catch. A handle
  pointer that is neither null nor the address of a handle struct is read by the test
  itself, in all three operations. A struct whose flag is set and whose status-item
  reference addresses no object is read by the log line of \<open>mlui_tray_set_title\<close>.
\<close>

theorem corrupted_handle_faults:
  "deref (handles ex_made) 5 = None \<and>
   mlui_tray_set_title ex_made (Some 5) ''Inbox'' = Inl InvalidPointer \<and>
   mlui_tray_set_on_click ex_made (Some 5) 0x2000 = Inl InvalidPointer \<and>
   mlui_tray_remove ex_made (Some 5) = Inl InvalidPointer \<and>
   deref (handles ex_stale) 0 = Some \<lparr>statusItem = Some 3, target = None, removed = 1\<rparr> \<and>
   deref (items ex_stale) 3 = None \<and>
   mlui_tray_set_title ex_stale (Some 0) ''Inbox'' = Inl InvalidPointer"
  by (simp add: ex_made_eq ex_stale_def init_world_def mlui_tray_set_title_def
      mlui_tray_set_on_click_def mlui_tray_remove_def Let_def prims)

end
